theory Spec2Isabelle
  imports Complex_Main "HOL-Library.Word" "HOL-Library.Sublist"
begin

section \<open>Shared data model\<close>

text \<open>
  File contents and network payloads are byte strings. Paths and URLs are strings.
  The chunk manifest is the JSON object that maps a root-relative path to the number of
  chunks the file was split into; a missing key is an absent (undefined) property.
\<close>

type_synonym byte = "8 word"
type_synonym buffer = "byte list"
type_synonym path = string
type_synonym chunk_manifest = "string \<rightharpoonup> nat"

subsection \<open>Decimal rendering of the chunk index\<close>

text \<open>
  Both template strings \<^verbatim>\<open>`${filePath}.part${i + 1}`\<close> and
  \<^verbatim>\<open>`${originalUrl}.part${i + 1}`\<close> render a positive integer in decimal.
\<close>

definition digit :: "nat \<Rightarrow> char" where
  "digit d = ''0123456789'' ! d"

fun string_of_nat :: "nat \<Rightarrow> string" where
  "string_of_nat n =
     (if n < 10 then [digit n] else string_of_nat (n div 10) @ [digit (n mod 10)])"

declare string_of_nat.simps [simp del]

section \<open>The Splitter: scripts/split-public-files.mjs\<close>

text \<open>
  \<^verbatim>\<open>const MAX_SIZE = 20 * 1024 * 1024; // 20MB\<close>
  The functions below take the threshold as the argument \<open>m\<close>; the script runs them
  at \<open>m = MAX_SIZE\<close>. \<open>PUBLIC_DIR\<close> depends on where the script is installed and is
  an argument as well.
\<close>

definition MAX_SIZE :: nat where
  "MAX_SIZE = 20 * 1024 * 1024"

text \<open>\<^verbatim>\<open>path.join(dir, file)\<close> for a directory and a plain entry name.\<close>

definition path_join :: "path \<Rightarrow> string \<Rightarrow> path" where
  "path_join dir file = dir @ ''/'' @ file"

text \<open>\<^verbatim>\<open>const MANIFEST_FILE = path.join(PUBLIC_DIR, 'chunks-manifest.json');\<close>\<close>

definition MANIFEST_FILE :: "path \<Rightarrow> path" where
  "MANIFEST_FILE PUBLIC_DIR = path_join PUBLIC_DIR ''chunks-manifest.json''"

text \<open>
  \<^verbatim>\<open>path.relative(PUBLIC_DIR, filePath)\<close>. Every path the script passes lies under
  \<open>PUBLIC_DIR\<close>, where the result is the path with the directory and one separator
  removed; the other branch (a path that climbs out with \<^verbatim>\<open>..\<close>) is never taken by
  the script and returns the path unchanged here.
\<close>

definition path_relative :: "path \<Rightarrow> path \<Rightarrow> string" where
  "path_relative from to =
     (if prefix (from @ ''/'') to then drop (length from + 1) to else to)"

text \<open>\<^verbatim>\<open>path.relative(PUBLIC_DIR, filePath).replace(/\\/g, '/')\<close>\<close>

definition relativePath_of :: "path \<Rightarrow> path \<Rightarrow> string" where
  "relativePath_of PUBLIC_DIR filePath =
     map (\<lambda>c. if c = CHR 0x5C then CHR ''/'' else c) (path_relative PUBLIC_DIR filePath)"

subsection \<open>Directory listing\<close>

text \<open>
  What \<^verbatim>\<open>fs.readdirSync\<close> and \<^verbatim>\<open>fs.statSync(...).isDirectory()\<close> report: the
  entries of a directory, each a regular file or a directory with entries of its own.
\<close>

datatype dirent = File string | Directory string "dirent list"

text \<open>
  \<^verbatim>\<open>
  function getAllFiles(dir, fileList = []) {
    const files = fs.readdirSync(dir);
    files.forEach((file) => {
      const filePath = path.join(dir, file);
      if (fs.statSync(filePath).isDirectory()) {
        getAllFiles(filePath, fileList);
      } else {
        fileList.push(filePath);
      }
    });
    return fileList;
  }
  \<close>
\<close>

fun getAllFiles :: "path \<Rightarrow> dirent list \<Rightarrow> path list \<Rightarrow> path list" where
  "getAllFiles dir [] fileList = fileList"
| "getAllFiles dir (File file # rest) fileList =
     getAllFiles dir rest (fileList @ [path_join dir file])"
| "getAllFiles dir (Directory file sub # rest) fileList =
     getAllFiles dir rest (getAllFiles (path_join dir file) sub fileList)"

subsection \<open>The file system and the operations the script performs on it\<close>

text \<open>
  The regular files by full path, and the log of the mutating calls made so far, in
  order. The log makes "the manifest file was written" and "no file was touched"
  statable.
\<close>

datatype fs_op = Write path | Unlink path

record filesystem =
  files :: "path \<rightharpoonup> buffer"
  oplog :: "fs_op list"

definition writeFileSync :: "path \<Rightarrow> buffer \<Rightarrow> filesystem \<Rightarrow> filesystem" where
  "writeFileSync p content d =
     d\<lparr>files := (files d)(p \<mapsto> content), oplog := oplog d @ [Write p]\<rparr>"

definition unlinkSync :: "path \<Rightarrow> filesystem \<Rightarrow> filesystem" where
  "unlinkSync p d = d\<lparr>files := (files d)(p := None), oplog := oplog d @ [Unlink p]\<rparr>"

text \<open>\<^verbatim>\<open>buffer.subarray(start, end)\<close>: the bytes at positions \<open>start \<le> k < end\<close>.\<close>

definition subarray :: "buffer \<Rightarrow> nat \<Rightarrow> nat \<Rightarrow> buffer" where
  "subarray buf start stop = take (stop - start) (drop start buf)"

text \<open>
  \<^verbatim>\<open>const totalChunks = Math.ceil(stats.size / MAX_SIZE);\<close>
  The quotient is taken in the reals: for the file sizes a buffer can hold, the
  double-precision quotient rounds up to the same integer.
\<close>

definition totalChunks_of :: "nat \<Rightarrow> nat \<Rightarrow> nat" where
  "totalChunks_of sz m = nat \<lceil>real sz / real m\<rceil>"

text \<open>\<^verbatim>\<open>const chunkPath = `${filePath}.part${i + 1}`;\<close>\<close>

definition chunkPath :: "path \<Rightarrow> nat \<Rightarrow> path" where
  "chunkPath filePath i = filePath @ ''.part'' @ string_of_nat (i + 1)"

text \<open>
  \<^verbatim>\<open>
  for (let i = 0; i < totalChunks; i++) {
    const start = i * MAX_SIZE;
    const end = Math.min(start + MAX_SIZE, stats.size);
    const chunk = buffer.subarray(start, end);
    const chunkPath = `${filePath}.part${i + 1}`;
    fs.writeFileSync(chunkPath, chunk);
  }
  \<close>
  \<open>stats.size\<close> is the length of the buffer just read.
\<close>

definition chunk_of :: "buffer \<Rightarrow> nat \<Rightarrow> nat \<Rightarrow> buffer" where
  "chunk_of buf m i =
     (let start = i * m; stop = min (start + m) (length buf) in subarray buf start stop)"

definition write_chunks :: "path \<Rightarrow> buffer \<Rightarrow> nat \<Rightarrow> nat \<Rightarrow> filesystem \<Rightarrow> filesystem" where
  "write_chunks filePath buf m totalChunks d =
     fold (\<lambda>i d'. writeFileSync (chunkPath filePath i) (chunk_of buf m i) d') [0..<totalChunks] d"

subsection \<open>The main loop\<close>

datatype split_error = PublicDirNotFound | ENOENT path

record split_state =
  manifest :: chunk_manifest
  changed :: bool
  disk :: filesystem

text \<open>
  The body of \<^verbatim>\<open>if (stats.size > MAX_SIZE) { ... }\<close> for a file whose contents
  \<open>buf\<close> were just read:
  \<^verbatim>\<open>
  const buffer = fs.readFileSync(filePath);
  const totalChunks = Math.ceil(stats.size / MAX_SIZE);
  manifest[relativePath] = totalChunks;
  for (...) { ... fs.writeFileSync(chunkPath, chunk); }
  fs.unlinkSync(filePath);
  changed = true;
  \<close>
\<close>

definition split_file :: "path \<Rightarrow> nat \<Rightarrow> path \<Rightarrow> buffer \<Rightarrow> split_state \<Rightarrow> split_state" where
  "split_file PUBLIC_DIR m filePath buf s =
     (let relativePath = relativePath_of PUBLIC_DIR filePath;
          totalChunks = totalChunks_of (length buf) m;
          manifest' = (manifest s)(relativePath \<mapsto> totalChunks);
          d1 = write_chunks filePath buf m totalChunks (disk s);
          d2 = unlinkSync filePath d1
      in \<lparr>manifest = manifest', changed = True, disk = d2\<rparr>)"

text \<open>
  One iteration of \<^verbatim>\<open>for (const filePath of files)\<close>: skip the manifest file; stat the
  file (which throws when it is gone); split it when it is larger than the threshold.
  Other I/O failures (permissions, a full disk, a directory in the way of a chunk) abort
  the script and are outside the model.
\<close>

definition process_file :: "path \<Rightarrow> nat \<Rightarrow> path \<Rightarrow> split_state \<Rightarrow> split_error + split_state" where
  "process_file PUBLIC_DIR m filePath s =
     (if filePath = MANIFEST_FILE PUBLIC_DIR then Inr s
      else case files (disk s) filePath of
        None \<Rightarrow> Inl (ENOENT filePath)
      | Some buf \<Rightarrow>
          if length buf > m then Inr (split_file PUBLIC_DIR m filePath buf s) else Inr s)"

fun splitFiles_loop :: "path \<Rightarrow> nat \<Rightarrow> path list \<Rightarrow> split_state \<Rightarrow> split_error + split_state" where
  "splitFiles_loop PUBLIC_DIR m [] s = Inr s"
| "splitFiles_loop PUBLIC_DIR m (filePath # rest) s =
     (case process_file PUBLIC_DIR m filePath s of
        Inl e \<Rightarrow> Inl e
      | Inr s' \<Rightarrow> splitFiles_loop PUBLIC_DIR m rest s')"

text \<open>
  \<^verbatim>\<open>
  let manifest = {};
  if (fs.existsSync(MANIFEST_FILE)) {
    try { manifest = JSON.parse(fs.readFileSync(MANIFEST_FILE, 'utf-8')); }
    catch (e) { console.warn('Could not parse existing manifest, starting fresh.'); }
  }
  \<close>
  \<open>parse\<close> stands for \<^verbatim>\<open>JSON.parse\<close>: the parsed object, or \<open>None\<close> when it throws.
\<close>

definition load_manifest :: "(buffer \<Rightarrow> chunk_manifest option) \<Rightarrow> path \<Rightarrow> filesystem \<Rightarrow> chunk_manifest" where
  "load_manifest parse PUBLIC_DIR d =
     (case files d (MANIFEST_FILE PUBLIC_DIR) of
        None \<Rightarrow> Map.empty
      | Some text \<Rightarrow> (case parse text of None \<Rightarrow> Map.empty | Some mf \<Rightarrow> mf))"

text \<open>
  \<^verbatim>\<open>
  if (changed) {
    fs.writeFileSync(MANIFEST_FILE, JSON.stringify(manifest, null, 2));
  } else { console.log('No new files needed splitting.'); }
  \<close>
  \<open>stringify\<close> stands for \<^verbatim>\<open>JSON.stringify\<close>.
\<close>

definition save_manifest :: "(chunk_manifest \<Rightarrow> buffer) \<Rightarrow> path \<Rightarrow> split_state \<Rightarrow> filesystem" where
  "save_manifest stringify PUBLIC_DIR s =
     (if changed s
      then writeFileSync (MANIFEST_FILE PUBLIC_DIR) (stringify (manifest s)) (disk s)
      else disk s)"

text \<open>
  \<open>splitFiles\<close>: \<open>tree\<close> is \<open>None\<close> when the public directory does not exist (the
  script exits with status 1), otherwise the entries of the directory.
\<close>

definition splitFiles ::
  "path \<Rightarrow> nat \<Rightarrow> (buffer \<Rightarrow> chunk_manifest option) \<Rightarrow> (chunk_manifest \<Rightarrow> buffer)
     \<Rightarrow> dirent list option \<Rightarrow> filesystem \<Rightarrow> split_error + filesystem" where
  "splitFiles PUBLIC_DIR m parse stringify tree d =
     (case tree of
        None \<Rightarrow> Inl PublicDirNotFound
      | Some entries \<Rightarrow>
          (let fileList = getAllFiles PUBLIC_DIR entries [];
               manifest0 = load_manifest parse PUBLIC_DIR d
           in case splitFiles_loop PUBLIC_DIR m fileList
                     \<lparr>manifest = manifest0, changed = False, disk = d\<rparr> of
                Inl e \<Rightarrow> Inl e
              | Inr s \<Rightarrow> Inr (save_manifest stringify PUBLIC_DIR s)))"

section \<open>The Reconstructor: src/js/utils/libreoffice-loader.ts\<close>

text \<open>
  The network as \<^verbatim>\<open>fetch\<close> sees it: \<open>None\<close> when the promise rejects (network
  error), otherwise a response with its \<^verbatim>\<open>ok\<close> flag and its body (\<open>None\<close> when
  reading the body rejects). A resource handed to the engine is the direct URL, or an
  object URL, which is identified with the bytes of the blob it designates.
\<close>

datatype response = Response (ok: bool) (payload: "buffer option")

type_synonym network = "string \<Rightarrow> response option"

datatype resource = Direct string | ObjectUrl buffer

datatype js_error = FetchRejected string | BodyRejected string | JsonRejected | ChunkFailed string

text \<open>\<^verbatim>\<open>const manifestUrl = `${DIST_URL}chunks-manifest.json`;\<close>\<close>

definition manifestUrl_of :: "string \<Rightarrow> string" where
  "manifestUrl_of DIST_URL = DIST_URL @ ''chunks-manifest.json''"

text \<open>
  \<^verbatim>\<open>
  let relativePath = originalUrl;
  if (relativePath.startsWith(DIST_URL)) {
    relativePath = relativePath.substring(DIST_URL.length);
  }
  if (relativePath.startsWith('/')) {
    relativePath = relativePath.substring(1);
  }
  \<close>
\<close>

definition manifest_key :: "string \<Rightarrow> string \<Rightarrow> string" where
  "manifest_key DIST_URL originalUrl =
     (let r0 = originalUrl;
          r1 = (if prefix DIST_URL r0 then drop (length DIST_URL) r0 else r0);
          r2 = (if prefix ''/'' r1 then drop 1 r1 else r1)
      in r2)"

text \<open>\<^verbatim>\<open>const chunkUrl = `${originalUrl}.part${i + 1}`;\<close>\<close>

definition chunkUrl_of :: "string \<Rightarrow> nat \<Rightarrow> string" where
  "chunkUrl_of originalUrl i = originalUrl @ ''.part'' @ string_of_nat (i + 1)"

text \<open>
  \<^verbatim>\<open>
  const chunks: Blob[] = [];
  for (let i = 0; i < totalChunks; i++) {
    const chunkUrl = `${originalUrl}.part${i + 1}`;
    const chunkRes = await fetch(chunkUrl);
    if (!chunkRes.ok) throw new Error(`Failed to fetch chunk ${chunkUrl}`);
    chunks.push(await chunkRes.blob());
  }
  \<close>
  The loop runs over the indices still to fetch, with the chunks collected so far and
  the list of URLs requested so far; it stops at the first exception.
\<close>

fun fetch_chunks ::
  "network \<Rightarrow> string \<Rightarrow> nat list \<Rightarrow> buffer list \<Rightarrow> string list
     \<Rightarrow> (js_error + buffer list) \<times> string list" where
  "fetch_chunks net originalUrl [] chunks requested = (Inr chunks, requested)"
| "fetch_chunks net originalUrl (i # rest) chunks requested =
     (let chunkUrl = chunkUrl_of originalUrl i in
      case net chunkUrl of
        None \<Rightarrow> (Inl (FetchRejected chunkUrl), requested @ [chunkUrl])
      | Some chunkRes \<Rightarrow>
          if \<not> ok chunkRes then (Inl (ChunkFailed chunkUrl), requested @ [chunkUrl])
          else (case payload chunkRes of
                  None \<Rightarrow> (Inl (BodyRejected chunkUrl), requested @ [chunkUrl])
                | Some blob \<Rightarrow>
                    fetch_chunks net originalUrl rest (chunks @ [blob]) (requested @ [chunkUrl])))"

text \<open>
  \<^verbatim>\<open>
  const chunks: Blob[] = [];
  for (...) { ... }
  const blob = new Blob(chunks);
  const objectUrl = URL.createObjectURL(blob);
  return objectUrl;
  \<close>
  A blob built from a list of blobs holds their bytes one after the other.
\<close>

definition merge_chunks ::
  "network \<Rightarrow> string \<Rightarrow> nat \<Rightarrow> string list \<Rightarrow> (js_error + resource) \<times> string list" where
  "merge_chunks net originalUrl totalChunks requested =
     (case fetch_chunks net originalUrl [0..<totalChunks] [] requested of
        (Inl e, requested') \<Rightarrow> (Inl e, requested')
      | (Inr chunks, requested') \<Rightarrow> (Inr (ObjectUrl (concat chunks)), requested'))"

text \<open>
  The body of the \<^verbatim>\<open>try\<close> block of \<open>getReconstructedFileUrl\<close>. \<open>json\<close> stands for
  parsing the manifest body: the parsed object, or \<open>None\<close> when
  \<^verbatim>\<open>manifestRes.json()\<close> rejects (a body that parses to \<^verbatim>\<open>null\<close> makes the
  property access throw inside the same \<^verbatim>\<open>try\<close>, which \<open>None\<close> covers as well).
  A property that is absent or \<open>0\<close> is falsy.
  The result comes with the list of URLs requested, in order.
\<close>

definition reconstruct_try ::
  "string \<Rightarrow> network \<Rightarrow> (buffer \<Rightarrow> chunk_manifest option) \<Rightarrow> string \<Rightarrow> string
     \<Rightarrow> (js_error + resource) \<times> string list" where
  "reconstruct_try DIST_URL net json basePath fileName =
     (let originalUrl = basePath @ fileName;
          manifestUrl = manifestUrl_of DIST_URL
      in case net manifestUrl of
           None \<Rightarrow> (Inl (FetchRejected manifestUrl), [manifestUrl])
         | Some manifestRes \<Rightarrow>
             if \<not> ok manifestRes then (Inr (Direct originalUrl), [manifestUrl])
             else (case payload manifestRes of
                 None \<Rightarrow> (Inl (BodyRejected manifestUrl), [manifestUrl])
               | Some body \<Rightarrow>
                  (case json body of
                     None \<Rightarrow> (Inl JsonRejected, [manifestUrl])
                   | Some manifestObj \<Rightarrow>
                      (case manifestObj (manifest_key DIST_URL originalUrl) of
                         None \<Rightarrow> (Inr (Direct originalUrl), [manifestUrl])
                       | Some totalChunks \<Rightarrow>
                           if totalChunks = 0 then (Inr (Direct originalUrl), [manifestUrl])
                           else merge_chunks net originalUrl totalChunks [manifestUrl]))))"

text \<open>
  \<open>getReconstructedFileUrl\<close>: the \<^verbatim>\<open>try\<close> block with its \<^verbatim>\<open>catch (e)\<close>, which
  logs a warning and returns \<open>originalUrl\<close>. An \<open>Inl\<close> result would be a rejection
  that reaches the caller.
\<close>

definition getReconstructedFileUrl ::
  "string \<Rightarrow> network \<Rightarrow> (buffer \<Rightarrow> chunk_manifest option) \<Rightarrow> string \<Rightarrow> string
     \<Rightarrow> (js_error + resource) \<times> string list" where
  "getReconstructedFileUrl DIST_URL net json basePath fileName =
     (case reconstruct_try DIST_URL net json basePath fileName of
        (Inl e, requested) \<Rightarrow> (Inr (Direct (basePath @ fileName)), requested)
      | (Inr url, requested) \<Rightarrow> (Inr url, requested))"

subsection \<open>The converter singleton\<close>

text \<open>
  \<^verbatim>\<open>const LIBREOFFICE_LOCAL_PATH = import.meta.env.BASE_URL + 'libreoffice-wasm/';\<close>
\<close>

definition LIBREOFFICE_LOCAL_PATH :: "string \<Rightarrow> string" where
  "LIBREOFFICE_LOCAL_PATH BASE_URL = BASE_URL @ ''libreoffice-wasm/''"

text \<open>
  The fields of a \<open>LibreOfficeConverter\<close> object; \<open>converter_set\<close> says whether
  \<^verbatim>\<open>this.converter\<close> is non-null.
\<close>

record LibreOfficeConverter =
  converter_set :: bool
  initialized :: bool
  initializing :: bool
  basePath :: string

text \<open>
  \<^verbatim>\<open>constructor(basePath?: string) { this.basePath = basePath || LIBREOFFICE_LOCAL_PATH; }\<close>
  An omitted argument and the empty string are falsy.
\<close>

definition new_LibreOfficeConverter :: "string \<Rightarrow> string option \<Rightarrow> LibreOfficeConverter" where
  "new_LibreOfficeConverter BASE_URL arg =
     \<lparr>converter_set = False, initialized = False, initializing = False,
      basePath = (case arg of
                    None \<Rightarrow> LIBREOFFICE_LOCAL_PATH BASE_URL
                  | Some p \<Rightarrow> if p = [] then LIBREOFFICE_LOCAL_PATH BASE_URL else p)\<rparr>"

text \<open>
  The module state: the objects allocated so far (a reference is an index into the
  list) and \<^verbatim>\<open>let converterInstance: LibreOfficeConverter | null = null;\<close>
\<close>

record module_state =
  heap :: "LibreOfficeConverter list"
  converterInstance :: "nat option"

definition initial_module :: module_state where
  "initial_module = \<lparr>heap = [], converterInstance = None\<rparr>"

text \<open>
  \<^verbatim>\<open>
  export function getLibreOfficeConverter(basePath?: string): LibreOfficeConverter {
    if (!converterInstance) {
      converterInstance = new LibreOfficeConverter(basePath);
    }
    return converterInstance;
  }
  \<close>
\<close>

definition getLibreOfficeConverter :: "string \<Rightarrow> string option \<Rightarrow> module_state \<Rightarrow> nat \<times> module_state" where
  "getLibreOfficeConverter BASE_URL arg s =
     (case converterInstance s of
        None \<Rightarrow>
          (let r = length (heap s)
           in (r, s\<lparr>heap := heap s @ [new_LibreOfficeConverter BASE_URL arg],
                    converterInstance := Some r\<rparr>))
      | Some r \<Rightarrow> (r, s))"

text \<open>
  \<^verbatim>\<open>
  async destroy(): Promise<void> {
    if (this.converter) { await this.converter.destroy(); }
    this.converter = null;
    this.initialized = false;
  }
  \<close>
\<close>

definition destroy :: "nat \<Rightarrow> module_state \<Rightarrow> module_state" where
  "destroy r s =
     (if r < length (heap s)
      then s\<lparr>heap := (heap s)[r := (heap s ! r)\<lparr>converter_set := False, initialized := False\<rparr>]\<rparr>
      else s)"

text \<open>
  A client of the module calls \<open>getLibreOfficeConverter\<close>, with or without an argument,
  and may destroy the converter it was given. \<open>run_calls\<close> performs a sequence of such
  calls and collects the references that \<open>getLibreOfficeConverter\<close> returned.
\<close>

datatype client_call = GetConverter "string option" | DestroyConverter

fun run_calls :: "string \<Rightarrow> client_call list \<Rightarrow> module_state \<Rightarrow> nat list \<times> module_state" where
  "run_calls BASE_URL [] s = ([], s)"
| "run_calls BASE_URL (GetConverter arg # rest) s =
     (let (r, s1) = getLibreOfficeConverter BASE_URL arg s;
          (rs, s2) = run_calls BASE_URL rest s1
      in (r # rs, s2))"
| "run_calls BASE_URL (DestroyConverter # rest) s =
     (case converterInstance s of
        None \<Rightarrow> run_calls BASE_URL rest s
      | Some r \<Rightarrow> run_calls BASE_URL rest (destroy r s))"

section \<open>Properties of the chunk count\<close>

lemma totalChunks_covers:
  assumes "0 < m" shows "s \<le> totalChunks_of s m * m"
proof -
  let ?c = "\<lceil>real s / real m\<rceil>"
  have c0: "0 \<le> ?c" using ceiling_mono[of 0 "real s / real m"] by simp
  have mpos: "0 < real m" using assms by simp
  have h: "real s / real m \<le> of_int ?c" by (rule le_of_int_ceiling)
  have "real s \<le> of_int ?c * real m" using h pos_divide_le_eq[OF mpos] by blast
  also have "of_int ?c = real (nat ?c)" using c0 by simp
  finally have "real s \<le> real (nat ?c * m)" by simp
  then show ?thesis unfolding totalChunks_of_def by (simp only: of_nat_le_iff)
qed


section \<open>Decimal indices and chunk paths are told apart\<close>

lemma digit_inj: "a < 10 \<Longrightarrow> b < 10 \<Longrightarrow> digit a = digit b \<Longrightarrow> a = b"
proof -
  assume a: "a < 10" and b: "b < 10" and e: "digit a = digit b"
  have d: "distinct ''0123456789''" by simp
  have l: "length ''0123456789'' = 10" by simp
  show "a = b"
    using nth_eq_iff_index_eq[OF d, of a b] a b e unfolding digit_def l by blast
qed

lemma string_of_nat_nonempty: "string_of_nat n \<noteq> []"
  by (subst string_of_nat.simps) simp

lemma string_of_nat_inj: "string_of_nat a = string_of_nat b \<Longrightarrow> a = b"
proof (induction a arbitrary: b rule: string_of_nat.induct)
  case (1 n)
  show ?case
  proof (cases "n < 10")
    case True
    then have sn: "string_of_nat n = [digit n]" by (subst string_of_nat.simps) simp
    show ?thesis
    proof (cases "b < 10")
      case bT: True
      then have "string_of_nat b = [digit b]" by (subst string_of_nat.simps) simp
      with sn "1.prems" have "digit n = digit b" by simp
      with True bT show ?thesis by (rule digit_inj)
    next
      case bF: False
      then have "string_of_nat b = string_of_nat (b div 10) @ [digit (b mod 10)]"
        by (subst string_of_nat.simps) simp
      with sn "1.prems" have "string_of_nat (b div 10) = []" by simp
      with string_of_nat_nonempty show ?thesis by blast
    qed
  next
    case False
    then have sn: "string_of_nat n = string_of_nat (n div 10) @ [digit (n mod 10)]"
      by (subst string_of_nat.simps) simp
    show ?thesis
    proof (cases "b < 10")
      case bT: True
      then have "string_of_nat b = [digit b]" by (subst string_of_nat.simps) simp
      with sn "1.prems" have "string_of_nat (n div 10) = []" by simp
      with string_of_nat_nonempty show ?thesis by blast
    next
      case bF: False
      then have "string_of_nat b = string_of_nat (b div 10) @ [digit (b mod 10)]"
        by (subst string_of_nat.simps) simp
      with sn "1.prems" have e: "string_of_nat (n div 10) = string_of_nat (b div 10)"
        and d: "digit (n mod 10) = digit (b mod 10)" by simp_all
      from "1.IH"[OF False e] have q: "n div 10 = b div 10" .
      have r: "n mod 10 = b mod 10" by (rule digit_inj[OF _ _ d]) simp_all
      from q r show ?thesis by (metis div_mult_mod_eq)
    qed
  qed
qed



lemma chunkPath_inj: "chunkPath p i = chunkPath p j \<Longrightarrow> i = j"
  unfolding chunkPath_def by (auto dest: string_of_nat_inj)

lemma chunkPath_neq_self: "chunkPath p i \<noteq> p"
  unfolding chunkPath_def by simp


section \<open>Chunk arithmetic\<close>

lemma chunk_take: "take (min (s + m) (length C) - s) (drop s C) = take m (drop s C)"
  by (cases "s + m \<le> length C") (simp_all add: min_def)

lemma chunk_of_take: "chunk_of C m k = take m (drop (k * m) C)"
  by (simp add: chunk_of_def subarray_def Let_def chunk_take)

lemma length_chunk_of: "length (chunk_of C m k) \<le> m"
  by (simp add: chunk_of_take)

lemma concat_chunks_take: "concat (map (chunk_of C m) [0..<k]) = take (k * m) C"
proof (induction k)
  case 0
  show ?case by simp
next
  case (Suc k)
  have "take (k * m) C @ take m (drop (k * m) C) = take (k * m + m) C"
    by (rule take_add [symmetric])
  with Suc show ?case by (simp add: chunk_of_take add.commute)
qed

lemma concat_all_chunks:
  assumes "0 < m"
  shows "concat (map (chunk_of C m) [0..<totalChunks_of (length C) m]) = C"
  using totalChunks_covers [OF assms, of "length C"] by (simp add: concat_chunks_take)

section \<open>Writing the chunks\<close>

lemma write_chunks_Suc:
  "write_chunks fp buf m (Suc n) d =
     writeFileSync (chunkPath fp n) (chunk_of buf m n) (write_chunks fp buf m n d)"
  by (simp add: write_chunks_def)

lemma write_chunks_oplog:
  "oplog (write_chunks fp buf m n d) = oplog d @ map (\<lambda>i. Write (chunkPath fp i)) [0..<n]"
  by (induction n) (simp_all add: write_chunks_Suc writeFileSync_def, simp add: write_chunks_def)

lemma write_chunks_other:
  "(\<forall>i<n. p \<noteq> chunkPath fp i) \<Longrightarrow> files (write_chunks fp buf m n d) p = files d p"
  by (induction n) (simp_all add: write_chunks_Suc writeFileSync_def, simp add: write_chunks_def)

lemma write_chunks_chunk:
  "i < n \<Longrightarrow> files (write_chunks fp buf m n d) (chunkPath fp i) = Some (chunk_of buf m i)"
proof (induction n)
  case 0
  then show ?case by simp
next
  case (Suc n)
  show ?case
  proof (cases "i = n")
    case True
    then show ?thesis by (simp add: write_chunks_Suc writeFileSync_def)
  next
    case False
    with Suc.prems have "i < n" by simp
    moreover from False have "chunkPath fp i \<noteq> chunkPath fp n" by (auto dest: chunkPath_inj)
    ultimately show ?thesis using Suc.IH by (simp add: write_chunks_Suc writeFileSync_def)
  qed
qed

section \<open>Fetching the chunks\<close>

lemma fetch_chunks_all_ok:
  "(\<forall>i\<in>set js. net (chunkUrl_of url i) = Some (Response True (Some (b i)))) \<Longrightarrow>
     fetch_chunks net url js chunks req = (Inr (chunks @ map b js), req @ map (chunkUrl_of url) js)"
  by (induction js arbitrary: chunks req) (simp_all add: Let_def)

lemma merge_chunks_all_ok:
  assumes "\<forall>i<n. net (chunkUrl_of url i) = Some (Response True (Some (b i)))"
  shows "merge_chunks net url n req =
           (Inr (ObjectUrl (concat (map b [0..<n]))), req @ map (chunkUrl_of url) [0..<n])"
proof -
  from assms have "\<forall>i\<in>set [0..<n]. net (chunkUrl_of url i) = Some (Response True (Some (b i)))"
    by simp
  from fetch_chunks_all_ok [OF this, of "[]" req] show ?thesis
    by (simp add: merge_chunks_def)
qed

section \<open>Round trip\<close>

text \<open>
  Claim C1. Take a byte string \<open>C\<close> and a positive chunk size \<open>m\<close> with
  \<open>m < length C\<close>. The Splitter's inner loop writes chunk \<open>i\<close>, the bytes from
  \<open>i * m\<close> up to \<open>min ((i + 1) * m) (length C)\<close>, to the file
  \<open>filePath.part(i+1)\<close>, for \<open>i\<close> below the chunk count. When the server answers the
  request for \<open>originalUrl.part(i+1)\<close> with the contents of that file, the
  Reconstructor's loop and blob assembly return an object URL whose bytes are exactly \<open>C\<close>.
\<close>

theorem roundtrip:
  assumes "0 < m" and "m < length C"
    and "\<forall>i < totalChunks_of (length C) m.
           net (chunkUrl_of originalUrl i) =
             Some (Response True
                (files (write_chunks filePath C m (totalChunks_of (length C) m) d)
                   (chunkPath filePath i)))"
  shows "fst (merge_chunks net originalUrl (totalChunks_of (length C) m) req) = Inr (ObjectUrl C)"
proof -
  let ?n = "totalChunks_of (length C) m"
  have "\<forall>i < ?n. net (chunkUrl_of originalUrl i) = Some (Response True (Some (chunk_of C m i)))"
    using assms(3) by (simp add: write_chunks_chunk)
  from merge_chunks_all_ok [OF this, of req] concat_all_chunks [OF assms(1), of C]
  show ?thesis by simp
qed

theorem roundtrip_witness:
  "(0::nat) < 2 \<and> 2 < length [1, 2, 3 :: byte] \<and>
   totalChunks_of (length [1, 2, 3 :: byte]) 2 = 2 \<and>
   files (write_chunks ''/p/a'' [1, 2, 3] 2 2 \<lparr>files = [''/p/a'' \<mapsto> [1, 2, 3]], oplog = []\<rparr>)
      (chunkPath ''/p/a'' 0) = Some [1, 2] \<and>
   files (write_chunks ''/p/a'' [1, 2, 3] 2 2 \<lparr>files = [''/p/a'' \<mapsto> [1, 2, 3]], oplog = []\<rparr>)
      (chunkPath ''/p/a'' 1) = Some [3] \<and>
   chunkUrl_of ''/a'' 0 = ''/a.part1'' \<and> chunkUrl_of ''/a'' 1 = ''/a.part2'' \<and>
   fst (merge_chunks
          (\<lambda>u. if u = ''/a.part1'' then Some (Response True (Some [1, 2]))
            else if u = ''/a.part2'' then Some (Response True (Some [3]))
            else None)
          ''/a'' (totalChunks_of (length [1, 2, 3 :: byte]) 2) []) =
     Inr (ObjectUrl [1, 2, 3])"
proof -
  let ?C = "[1, 2, 3 :: byte]"
  let ?net = "\<lambda>u. if u = ''/a.part1'' then Some (Response True (Some [1, 2 :: byte]))
            else if u = ''/a.part2'' then Some (Response True (Some [3]))
            else None"
  let ?d = "\<lparr>files = [''/p/a'' \<mapsto> ?C], oplog = []\<rparr>"
  have n: "totalChunks_of (length ?C) 2 = 2" by (simp add: totalChunks_of_def)
  have u: "chunkUrl_of ''/a'' 0 = ''/a.part1''" "chunkUrl_of ''/a'' 1 = ''/a.part2''"
    by (simp_all add: chunkUrl_of_def string_of_nat.simps digit_def)
  have w: "files (write_chunks ''/p/a'' ?C 2 2 ?d) (chunkPath ''/p/a'' 0) = Some [1, 2]"
    "files (write_chunks ''/p/a'' ?C 2 2 ?d) (chunkPath ''/p/a'' 1) = Some [3]"
    by (simp_all add: chunkPath_def write_chunks_def writeFileSync_def
        chunk_of_def subarray_def string_of_nat.simps digit_def upt_rec)
  have lt2: "\<And>i::nat. i < 2 \<longleftrightarrow> i = 0 \<or> i = 1" by auto
  have h3: "\<forall>i < totalChunks_of (length ?C) 2.
      ?net (chunkUrl_of ''/a'' i) =
        Some (Response True
           (files (write_chunks ''/p/a'' ?C 2 (totalChunks_of (length ?C) 2) ?d)
              (chunkPath ''/p/a'' i)))"
    unfolding n lt2 using u w by simp
  have h1: "(0::nat) < 2" by simp
  have h2: "2 < length ?C" by simp
  from roundtrip [OF h1 h2 h3, of "[]"] h1 h2 n u w show ?thesis by blast
qed

section \<open>Splitting one file\<close>


lemma split_file_changed: "changed (split_file PD m fp buf s)"
  by (simp add: split_file_def Let_def)

lemma split_file_oplog:
  "oplog (disk (split_file PD m fp buf s)) =
     oplog (disk s) @ map (\<lambda>i. Write (chunkPath fp i)) [0..<totalChunks_of (length buf) m]
       @ [Unlink fp]"
  by (simp add: split_file_def Let_def unlinkSync_def write_chunks_oplog)

lemma split_file_removed: "files (disk (split_file PD m fp buf s)) fp = None"
  by (simp add: split_file_def Let_def unlinkSync_def)

lemma split_file_chunk:
  "i < totalChunks_of (length buf) m \<Longrightarrow>
     files (disk (split_file PD m fp buf s)) (chunkPath fp i) = Some (chunk_of buf m i)"
  by (simp add: split_file_def Let_def unlinkSync_def write_chunks_chunk chunkPath_neq_self)

lemma split_file_other:
  "p \<noteq> fp \<Longrightarrow> \<forall>i<totalChunks_of (length buf) m. p \<noteq> chunkPath fp i \<Longrightarrow>
     files (disk (split_file PD m fp buf s)) p = files (disk s) p"
  by (simp add: split_file_def Let_def unlinkSync_def write_chunks_other)

lemma split_file_sizes:
  assumes "files (disk (split_file PD m fp buf s)) p = Some b"
  shows "files (disk s) p = Some b \<or> length b \<le> m"
proof (cases "\<exists>i<totalChunks_of (length buf) m. p = chunkPath fp i")
  case True
  then obtain i where "i < totalChunks_of (length buf) m" "p = chunkPath fp i" by blast
  with assms have "b = chunk_of buf m i" by (simp add: split_file_chunk)
  then show ?thesis by (simp add: length_chunk_of)
next
  case False
  moreover from assms have "p \<noteq> fp" by (auto simp: split_file_removed)
  ultimately show ?thesis using assms by (simp add: split_file_other)
qed

lemma split_file_dom:
  assumes "p \<noteq> fp" and "p \<in> dom (files (disk s))"
  shows "p \<in> dom (files (disk (split_file PD m fp buf s)))"
proof (cases "\<exists>i<totalChunks_of (length buf) m. p = chunkPath fp i")
  case True
  then show ?thesis by (auto simp: split_file_chunk)
next
  case False
  with assms show ?thesis by (simp add: split_file_other dom_def)
qed

section \<open>One iteration of the main loop\<close>

lemma process_file_manifest: "process_file PD m (MANIFEST_FILE PD) s = Inr s"
  by (simp add: process_file_def)

lemma process_file_small:
  "files (disk s) fp = Some buf \<Longrightarrow> length buf \<le> m \<Longrightarrow> process_file PD m fp s = Inr s"
  by (simp add: process_file_def)


lemma process_file_Inr:
  assumes "process_file PD m fp s = Inr s'"
  shows "(s' = s \<and> (fp = MANIFEST_FILE PD \<or> (\<exists>buf. files (disk s) fp = Some buf \<and> length buf \<le> m))) \<or>
         (\<exists>buf. fp \<noteq> MANIFEST_FILE PD \<and> files (disk s) fp = Some buf \<and> m < length buf \<and>
                s' = split_file PD m fp buf s)"
  using assms by (auto simp: process_file_def split: if_splits option.splits)

lemma process_file_present:
  "fp \<in> dom (files (disk s)) \<Longrightarrow> \<exists>s'. process_file PD m fp s = Inr s'"
  by (auto simp: process_file_def)

lemma process_file_dom:
  assumes "process_file PD m fp s = Inr s'" and "p \<noteq> fp" and "p \<in> dom (files (disk s))"
  shows "p \<in> dom (files (disk s'))"
proof -
  from process_file_Inr [OF assms(1)]
  show ?thesis
  proof
    assume "s' = s \<and> (fp = MANIFEST_FILE PD \<or> (\<exists>buf. files (disk s) fp = Some buf \<and> length buf \<le> m))"
    with assms(3) show ?thesis by simp
  next
    assume "\<exists>buf. fp \<noteq> MANIFEST_FILE PD \<and> files (disk s) fp = Some buf \<and> m < length buf \<and>
                s' = split_file PD m fp buf s"
    then obtain buf where "s' = split_file PD m fp buf s" by blast
    with split_file_dom [OF assms(2,3)] show ?thesis by simp
  qed
qed

section \<open>The main loop\<close>

lemma splitFiles_loop_completes:
  "distinct fl \<Longrightarrow> set fl \<subseteq> dom (files (disk s)) \<Longrightarrow> \<exists>s'. splitFiles_loop PD m fl s = Inr s'"
proof (induction fl arbitrary: s)
  case Nil
  show ?case by simp
next
  case (Cons fp rest)
  from Cons.prems have "fp \<in> dom (files (disk s))" by simp
  then obtain s1 where s1: "process_file PD m fp s = Inr s1"
    using process_file_present by blast
  have "set rest \<subseteq> dom (files (disk s1))"
  proof
    fix p assume p: "p \<in> set rest"
    with Cons.prems have "p \<noteq> fp" "p \<in> dom (files (disk s))" by auto
    with s1 show "p \<in> dom (files (disk s1))" by (rule process_file_dom)
  qed
  moreover from Cons.prems have "distinct rest" by simp
  ultimately obtain s' where "splitFiles_loop PD m rest s1 = Inr s'"
    using Cons.IH by blast
  with s1 show ?case by simp
qed

lemma splitFiles_loop_noop:
  "\<forall>p\<in>set fl. p = MANIFEST_FILE PD \<or> (\<exists>b. files (disk s) p = Some b \<and> length b \<le> m) \<Longrightarrow>
     splitFiles_loop PD m fl s = Inr s"
  by (induction fl) (auto simp: process_file_manifest process_file_small)

lemma splitFiles_loop_sizes:
  assumes "splitFiles_loop PD m fl s = Inr s'"
    and "\<forall>p b. files (disk s) p = Some b \<longrightarrow> p \<in> set fl \<or> p = MANIFEST_FILE PD \<or> length b \<le> m"
  shows "\<forall>p b. files (disk s') p = Some b \<longrightarrow> p = MANIFEST_FILE PD \<or> length b \<le> m"
  using assms
proof (induction fl arbitrary: s)
  case Nil
  then show ?case by simp
next
  case (Cons fp rest)
  from Cons.prems(1) obtain s1 where s1: "process_file PD m fp s = Inr s1"
    and rest: "splitFiles_loop PD m rest s1 = Inr s'"
    by (auto split: sum.splits)
  have "\<forall>p b. files (disk s1) p = Some b \<longrightarrow> p \<in> set rest \<or> p = MANIFEST_FILE PD \<or> length b \<le> m"
  proof (intro allI impI)
    fix p b assume pb: "files (disk s1) p = Some b"
    from process_file_Inr [OF s1]
    show "p \<in> set rest \<or> p = MANIFEST_FILE PD \<or> length b \<le> m"
    proof
      assume eq': "s1 = s \<and> (fp = MANIFEST_FILE PD \<or> (\<exists>buf. files (disk s) fp = Some buf \<and> length buf \<le> m))"
      then have eq: "s1 = s" by simp
      with pb Cons.prems(2) have c: "p \<in> set (fp # rest) \<or> p = MANIFEST_FILE PD \<or> length b \<le> m"
        by blast
      show ?thesis
      proof (cases "p = fp")
        case True
        with eq' pb show ?thesis by auto
      next
        case False
        with c show ?thesis by auto
      qed
    next
      assume "\<exists>buf. fp \<noteq> MANIFEST_FILE PD \<and> files (disk s) fp = Some buf \<and> m < length buf \<and>
                s1 = split_file PD m fp buf s"
      then obtain buf where sp: "s1 = split_file PD m fp buf s" by blast
      with pb have "p \<noteq> fp" by (auto simp: split_file_removed)
      moreover from pb sp have "files (disk s) p = Some b \<or> length b \<le> m"
        by (auto dest: split_file_sizes)
      ultimately show ?thesis using Cons.prems(2) by auto
    qed
  qed
  with rest show ?case by (rule Cons.IH)
qed




section \<open>When the manifest file is written\<close>


lemma save_manifest_sizes:
  assumes "\<forall>p b. files (disk s) p = Some b \<longrightarrow> p = MANIFEST_FILE PD \<or> length b \<le> m"
  shows "\<forall>p b. files (save_manifest stringify PD s) p = Some b \<longrightarrow> p = MANIFEST_FILE PD \<or> length b \<le> m"
  using assms by (auto simp: save_manifest_def writeFileSync_def split: if_splits)

lemma splitFiles_noop:
  assumes "\<forall>p\<in>set (getAllFiles PD entries []).
             p = MANIFEST_FILE PD \<or> (\<exists>b. files d p = Some b \<and> length b \<le> m)"
  shows "splitFiles PD m parse stringify (Some entries) d = Inr d"
proof -
  let ?s0 = "\<lparr>manifest = load_manifest parse PD d, changed = False, disk = d\<rparr>"
  from assms have "splitFiles_loop PD m (getAllFiles PD entries []) ?s0 = Inr ?s0"
    by (intro splitFiles_loop_noop) simp
  then show ?thesis by (simp add: splitFiles_def Let_def save_manifest_def)
qed

section \<open>Running the Splitter twice\<close>

text \<open>
  Claim C6. Let the first run list every file of the public directory. It completes, and
  a second run over its output, whatever existing files the second listing reports,
  returns the file system unchanged: the same files with the same contents, the manifest
  file included, and not one more write or removal in the log. No chunk is split again
  because every chunk is at most \<open>m\<close> bytes long and the size test is strict.
\<close>

theorem second_run_changes_nothing:
  assumes "distinct (getAllFiles PD entries1 [])"
    and "set (getAllFiles PD entries1 []) = dom (files d0)"
  shows "\<exists>d1. splitFiles PD m parse stringify (Some entries1) d0 = Inr d1 \<and>
           (\<forall>entries2. set (getAllFiles PD entries2 []) \<subseteq> dom (files d1) \<longrightarrow>
                splitFiles PD m parse stringify (Some entries2) d1 = Inr d1)"
proof -
  let ?fl = "getAllFiles PD entries1 []"
  let ?s0 = "\<lparr>manifest = load_manifest parse PD d0, changed = False, disk = d0\<rparr>"
  from assms have "set ?fl \<subseteq> dom (files (disk ?s0))" by simp
  with assms(1) obtain s where s: "splitFiles_loop PD m ?fl ?s0 = Inr s"
    using splitFiles_loop_completes by blast
  then have run: "splitFiles PD m parse stringify (Some entries1) d0 = Inr (save_manifest stringify PD s)"
    by (simp add: splitFiles_def Let_def)
  let ?d1 = "save_manifest stringify PD s"
  have "\<forall>p b. files (disk ?s0) p = Some b \<longrightarrow> p \<in> set ?fl \<or> p = MANIFEST_FILE PD \<or> length b \<le> m"
    using assms(2) by auto
  from splitFiles_loop_sizes [OF s this]
  have sizes: "\<forall>p b. files ?d1 p = Some b \<longrightarrow> p = MANIFEST_FILE PD \<or> length b \<le> m"
    by (rule save_manifest_sizes)
  have "\<forall>entries2. set (getAllFiles PD entries2 []) \<subseteq> dom (files ?d1) \<longrightarrow>
          splitFiles PD m parse stringify (Some entries2) ?d1 = Inr ?d1"
  proof (intro allI impI)
    fix entries2 assume sub: "set (getAllFiles PD entries2 []) \<subseteq> dom (files ?d1)"
    have "\<forall>p\<in>set (getAllFiles PD entries2 []).
            p = MANIFEST_FILE PD \<or> (\<exists>b. files ?d1 p = Some b \<and> length b \<le> m)"
    proof
      fix p assume "p \<in> set (getAllFiles PD entries2 [])"
      with sub obtain b where b: "files ?d1 p = Some b" by auto
      with sizes have "p = MANIFEST_FILE PD \<or> length b \<le> m" by blast
      with b show "p = MANIFEST_FILE PD \<or> (\<exists>b. files ?d1 p = Some b \<and> length b \<le> m)" by blast
    qed
    then show "splitFiles PD m parse stringify (Some entries2) ?d1 = Inr ?d1"
      by (rule splitFiles_noop)
  qed
  with run show ?thesis by blast
qed

section \<open>An existing manifest that does not parse\<close>


section \<open>The chunk count law\<close>


section \<open>The scenarios of the specification\<close>

text \<open>
  A file of 45 MiB is cut into three chunks of 20, 20 and 5 MiB; a file of 10 MiB is left
  as it is.
\<close>

lemma length_chunk_of_eq: "length (chunk_of C m i) = min m (length C - i * m)"
  by (simp add: chunk_of_take)

lemma scenario_45_MiB:
  "totalChunks_of (45 * 1024 * 1024) MAX_SIZE = 3"
  "length C = 45 * 1024 * 1024 \<Longrightarrow>
     map (\<lambda>i. length (chunk_of C MAX_SIZE i)) [0, 1, 2] =
       [20 * 1024 * 1024, 20 * 1024 * 1024, 5 * 1024 * 1024]"
  by (simp_all add: totalChunks_of_def MAX_SIZE_def length_chunk_of_eq)

lemma scenario_10_MiB:
  "files (disk s) fp = Some buf \<Longrightarrow> length buf = 10 * 1024 * 1024 \<Longrightarrow>
     process_file PD MAX_SIZE fp s = Inr s"
proof -
  assume f: "files (disk s) fp = Some buf" and l: "length buf = 10 * 1024 * 1024"
  from l have "length buf \<le> MAX_SIZE" by (simp add: MAX_SIZE_def)
  with f show ?thesis by (rule process_file_small)
qed

section \<open>A worked run\<close>

text \<open>
  The public directory \<open>/p\<close> holds one file \<open>a\<close> of three bytes, and the threshold
  is two bytes: the run writes two chunks, removes \<open>a\<close> and writes the manifest.
\<close>

lemma example_run:
  "\<exists>d'. splitFiles ''/p'' 2 (\<lambda>_. None) (\<lambda>_. []) (Some [File ''a''])
           \<lparr>files = [''/p/a'' \<mapsto> [1, 2, 3 :: byte]], oplog = []\<rparr> = Inr d' \<and>
         oplog d' = [Write ''/p/a.part1'', Write ''/p/a.part2'', Unlink ''/p/a'',
                     Write (MANIFEST_FILE ''/p'')] \<and>
         files d' ''/p/a'' = None \<and> files d' ''/p/a.part1'' = Some [1, 2] \<and>
         files d' ''/p/a.part2'' = Some [3] \<and> files d' (MANIFEST_FILE ''/p'') = Some []"
  apply (simp add: splitFiles_def load_manifest_def Let_def)
  apply (simp add: process_file_def MANIFEST_FILE_def path_join_def)
  apply (simp add: save_manifest_def split_file_changed writeFileSync_def split_file_oplog
      MANIFEST_FILE_def path_join_def)
  apply (simp add: totalChunks_of_def)
  apply (simp add: split_file_def Let_def totalChunks_of_def unlinkSync_def)
  apply (simp add: write_chunks_def)
  apply (simp add: upt_rec)
  apply (simp add: chunkPath_def writeFileSync_def chunk_of_def subarray_def)
  apply (simp add: string_of_nat.simps digit_def)
  done

lemma example_listing: "getAllFiles ''/p'' [File ''a''] [] = [''/p/a'']"
  by (simp add: path_join_def)







theorem second_run_changes_nothing_witness:
  "distinct (getAllFiles ''/p'' [File ''a''] []) \<and>
   set (getAllFiles ''/p'' [File ''a''] []) = dom (files \<lparr>files = [''/p/a'' \<mapsto> [1, 2, 3]], oplog = []\<rparr>) \<and>
   (\<exists>d1. splitFiles ''/p'' 2 (\<lambda>_. None) (\<lambda>_. []) (Some [File ''a''])
            \<lparr>files = [''/p/a'' \<mapsto> [1, 2, 3]], oplog = []\<rparr> = Inr d1 \<and>
         files d1 ''/p/a'' = None \<and> files d1 ''/p/a.part1'' = Some [1, 2] \<and>
         files d1 ''/p/a.part2'' = Some [3] \<and>
         splitFiles ''/p'' 2 (\<lambda>_. None) (\<lambda>_. [])
            (Some [File ''a.part1'', File ''a.part2'', File ''chunks-manifest.json'']) d1 = Inr d1)"
proof -
  let ?d = "\<lparr>files = [''/p/a'' \<mapsto> [1, 2, 3 :: byte]], oplog = []\<rparr>"
  let ?entries2 = "[File ''a.part1'', File ''a.part2'', File ''chunks-manifest.json'']"
  have h1: "distinct (getAllFiles ''/p'' [File ''a''] [])" by simp
  have h2: "set (getAllFiles ''/p'' [File ''a''] []) = dom (files ?d)"
    by (simp add: path_join_def)
  from second_run_changes_nothing [OF h1 h2, of 2 "\<lambda>_. None" "\<lambda>_. []"]
  obtain d1 where r: "splitFiles ''/p'' 2 (\<lambda>_. None) (\<lambda>_. []) (Some [File ''a'']) ?d = Inr d1"
    and again: "\<forall>entries2. set (getAllFiles ''/p'' entries2 []) \<subseteq> dom (files d1) \<longrightarrow>
                splitFiles ''/p'' 2 (\<lambda>_. None) (\<lambda>_. []) (Some entries2) d1 = Inr d1"
    by blast
  from example_run r have f: "files d1 ''/p/a'' = None" "files d1 ''/p/a.part1'' = Some [1, 2]"
    "files d1 ''/p/a.part2'' = Some [3]" "files d1 (MANIFEST_FILE ''/p'') = Some []"
    by auto
  have "getAllFiles ''/p'' ?entries2 [] = [''/p/a.part1'', ''/p/a.part2'', MANIFEST_FILE ''/p'']"
    by (simp add: path_join_def MANIFEST_FILE_def)
  with f have "set (getAllFiles ''/p'' ?entries2 []) \<subseteq> dom (files d1)" by auto
  with again have "splitFiles ''/p'' 2 (\<lambda>_. None) (\<lambda>_. []) (Some ?entries2) d1 = Inr d1"
    by blast
  with r f h1 h2 show ?thesis by blast
qed


section \<open>The Reconstructor's chunk loop\<close>

lemma fetch_chunks_fails:
  assumes "k \<in> set js"
    and "net (chunkUrl_of url k) = None \<or>
         (\<exists>res. net (chunkUrl_of url k) = Some res \<and> (\<not> ok res \<or> payload res = None))"
  shows "\<exists>e req'. fetch_chunks net url js chunks req = (Inl e, req')"
  using assms(1)
proof (induction js arbitrary: chunks req)
  case Nil
  then show ?case by simp
next
  case (Cons i rest)
  show ?case
  proof (cases "net (chunkUrl_of url i)")
    case None
    then show ?thesis by (simp add: Let_def)
  next
    case (Some res)
    show ?thesis
    proof (cases "ok res \<and> payload res \<noteq> None")
      case False
      with Some show ?thesis by (auto simp: Let_def split: option.splits)
    next
      case True
      with Some assms(2) have "k \<noteq> i" by auto
      with Cons.prems have "k \<in> set rest" by simp
      from Cons.IH [OF this] True Some show ?thesis by (auto simp: Let_def)
    qed
  qed
qed

lemma merge_chunks_fails:
  assumes "k < n"
    and "net (chunkUrl_of url k) = None \<or>
         (\<exists>res. net (chunkUrl_of url k) = Some res \<and> (\<not> ok res \<or> payload res = None))"
  shows "\<exists>e req'. merge_chunks net url n req = (Inl e, req')"
proof -
  from assms(1) have "k \<in> set [0..<n]" by simp
  with assms(2) obtain e req' where "fetch_chunks net url [0..<n] [] req = (Inl e, req')"
    using fetch_chunks_fails [of k "[0..<n]" net url "[]" req] by blast
  then show ?thesis by (simp add: merge_chunks_def)
qed

lemma fetch_chunks_requested:
  "\<exists>k\<le>length js. snd (fetch_chunks net url js chunks req) = req @ map (chunkUrl_of url) (take k js) \<and>
      (k = length js \<or> (\<exists>e. fst (fetch_chunks net url js chunks req) = Inl e))"
proof (induction js arbitrary: chunks req)
  case Nil
  show ?case by simp
next
  case (Cons i rest)
  show ?case
  proof (cases "\<exists>blob. net (chunkUrl_of url i) = Some (Response True (Some blob))")
    case True
    then obtain blob where b: "net (chunkUrl_of url i) = Some (Response True (Some blob))" by blast
    from Cons.IH [of "chunks @ [blob]" "req @ [chunkUrl_of url i]"]
    obtain k where k: "k \<le> length rest"
      "snd (fetch_chunks net url rest (chunks @ [blob]) (req @ [chunkUrl_of url i])) =
         (req @ [chunkUrl_of url i]) @ map (chunkUrl_of url) (take k rest)"
      "k = length rest \<or> (\<exists>e. fst (fetch_chunks net url rest (chunks @ [blob]) (req @ [chunkUrl_of url i])) = Inl e)"
      by blast
    with b show ?thesis by (intro exI [of _ "Suc k"]) (simp add: Let_def)
  next
    case False
    then have "snd (fetch_chunks net url (i # rest) chunks req) = req @ [chunkUrl_of url i] \<and>
       (\<exists>e. fst (fetch_chunks net url (i # rest) chunks req) = Inl e)"
      by (cases "net (chunkUrl_of url i)"; cases "the (net (chunkUrl_of url i))")
         (auto simp: Let_def split: option.splits)
    then show ?thesis by (intro exI [of _ "Suc 0"]) simp
  qed
qed



lemma merge_chunks_snd:
  "snd (merge_chunks net url n req) = snd (fetch_chunks net url [0..<n] [] req)"
  by (simp add: merge_chunks_def split: prod.splits sum.splits)



lemma fetch_chunks_first:
  "\<exists>tl. snd (fetch_chunks net url (i # rest) chunks req) = req @ chunkUrl_of url i # tl"
proof (cases "\<exists>blob. net (chunkUrl_of url i) = Some (Response True (Some blob))")
  case True
  then obtain blob where b: "net (chunkUrl_of url i) = Some (Response True (Some blob))" by blast
  from fetch_chunks_requested [of rest net url "chunks @ [blob]" "req @ [chunkUrl_of url i]"]
  obtain k where
    "snd (fetch_chunks net url rest (chunks @ [blob]) (req @ [chunkUrl_of url i])) =
       (req @ [chunkUrl_of url i]) @ map (chunkUrl_of url) (take k rest)"
    by blast
  with b show ?thesis by (simp add: Let_def)
next
  case False
  then have "snd (fetch_chunks net url (i # rest) chunks req) = req @ [chunkUrl_of url i]"
    by (cases "net (chunkUrl_of url i)"; cases "the (net (chunkUrl_of url i))")
       (auto simp: Let_def split: option.splits)
  then show ?thesis by simp
qed

lemma merge_chunks_first:
  assumes "0 < n"
  shows "\<exists>tl. snd (merge_chunks net url n req) = req @ (url @ ''.part1'') # tl"
proof -
  from assms have "[0..<n] = 0 # [1..<n]" by (simp add: upt_conv_Cons)
  with fetch_chunks_first [of net url 0 "[1..<n]" "[]" req]
  obtain tl where "snd (fetch_chunks net url [0..<n] [] req) = req @ chunkUrl_of url 0 # tl"
    by auto
  moreover have "chunkUrl_of url 0 = url @ ''.part1''"
    by (simp add: chunkUrl_of_def string_of_nat.simps digit_def)
  ultimately show ?thesis by (simp add: merge_chunks_snd)
qed

section \<open>The catch-all of getReconstructedFileUrl\<close>

lemma getReconstructedFileUrl_returns:
  "\<exists>r. fst (getReconstructedFileUrl D net json bp name) = Inr r"
  by (cases "reconstruct_try D net json bp name"; cases "fst (reconstruct_try D net json bp name)")
     (auto simp: getReconstructedFileUrl_def)

lemma getReconstructedFileUrl_chunks:
  assumes "net (manifestUrl_of D) = Some res" and "ok res" and "payload res = Some body"
    and "json body = Some mf" and "mf (manifest_key D (bp @ name)) = Some n" and "0 < n"
  shows "reconstruct_try D net json bp name = merge_chunks net (bp @ name) n [manifestUrl_of D]"
  using assms by (simp add: reconstruct_try_def Let_def)

section \<open>Falling back when the manifest cannot be had\<close>

text \<open>
  Claim C3. \<open>getReconstructedFileUrl\<close> never raises to its caller: for every network,
  parser, base path and file name it returns a resource. Whenever the manifest fetch does
  not succeed (the request is rejected, the status is not a success, the body cannot be
  read or is not JSON) the resource is the direct URL, exactly \<open>basePath + fileName\<close>,
  and the manifest is the only URL that was requested.
\<close>

theorem fallback_on_manifest_failure:
  "(\<exists>r. fst (getReconstructedFileUrl D net json bp name) = Inr r) \<and>
   (net (manifestUrl_of D) = None \<or>
    (\<exists>res. net (manifestUrl_of D) = Some res \<and>
       (\<not> ok res \<or> payload res = None \<or> (\<exists>body. payload res = Some body \<and> json body = None)))
    \<longrightarrow> getReconstructedFileUrl D net json bp name =
          (Inr (Direct (bp @ name)), [manifestUrl_of D]))"
proof (intro conjI impI)
  show "\<exists>r. fst (getReconstructedFileUrl D net json bp name) = Inr r"
    by (rule getReconstructedFileUrl_returns)
next
  assume "net (manifestUrl_of D) = None \<or>
    (\<exists>res. net (manifestUrl_of D) = Some res \<and>
       (\<not> ok res \<or> payload res = None \<or> (\<exists>body. payload res = Some body \<and> json body = None)))"
  then show "getReconstructedFileUrl D net json bp name =
          (Inr (Direct (bp @ name)), [manifestUrl_of D])"
    by (auto simp: getReconstructedFileUrl_def reconstruct_try_def Let_def)
qed

section \<open>Falling back when a chunk cannot be had\<close>

text \<open>
  Claim C4. Let the manifest be fetched and parsed, with \<open>n\<close> chunks recorded for the
  requested file. If the fetch of any one chunk fails (chunk \<open>k + 1\<close> with \<open>k < n\<close>:
  the request is rejected, the status is not a success, or the body cannot be read) the
  result is the direct original URL, never an object URL over part of the chunks. The
  instance that follows has \<open>n = 3\<close> and chunk 2 answered by a failure status.
\<close>

theorem fallback_on_chunk_failure:
  assumes "net (manifestUrl_of D) = Some res" and "ok res" and "payload res = Some body"
    and "json body = Some mf"
    and "mf (manifest_key D (bp @ name)) = Some n"
    and "k < n"
    and "net (chunkUrl_of (bp @ name) k) = None \<or>
         (\<exists>cres. net (chunkUrl_of (bp @ name) k) = Some cres \<and> (\<not> ok cres \<or> payload cres = None))"
  shows "fst (getReconstructedFileUrl D net json bp name) = Inr (Direct (bp @ name))"
proof -
  from assms(6) have "0 < n" by simp
  with assms(1-5) have "reconstruct_try D net json bp name =
      merge_chunks net (bp @ name) n [manifestUrl_of D]"
    by (rule getReconstructedFileUrl_chunks)
  moreover from assms(6,7) obtain e req' where
    "merge_chunks net (bp @ name) n [manifestUrl_of D] = (Inl e, req')"
    using merge_chunks_fails [of k n net "bp @ name" "[manifestUrl_of D]"] by blast
  ultimately show ?thesis by (simp add: getReconstructedFileUrl_def)
qed

section \<open>The manifest key and the unsplit file\<close>

text \<open>
  Claim C5. Let the manifest be fetched and parsed to \<open>mf\<close>. The key that is looked up
  is \<open>originalUrl\<close> with the prefix \<open>DIST_URL\<close> removed when it starts with it, and
  then one leading \<open>/\<close> removed when there is one. If \<open>mf\<close> has no entry at that key,
  or the entry is \<open>0\<close>, the result is \<open>originalUrl\<close> and nothing but the manifest was
  requested. (Were the entry positive, chunk 1 would be the next request: it is this key
  that decides.)
\<close>

theorem direct_url_when_not_split:
  assumes "net (manifestUrl_of D) = Some res" and "ok res" and "payload res = Some body"
    and "json body = Some mf"
    and "r1 = (if prefix D (bp @ name) then drop (length D) (bp @ name) else bp @ name)"
    and "key = (if prefix ''/'' r1 then drop 1 r1 else r1)"
  shows "(mf key = None \<or> mf key = Some 0 \<longrightarrow>
            getReconstructedFileUrl D net json bp name =
              (Inr (Direct (bp @ name)), [manifestUrl_of D])) \<and>
         (\<forall>n. mf key = Some n \<and> 0 < n \<longrightarrow>
            take 2 (snd (getReconstructedFileUrl D net json bp name)) =
              [manifestUrl_of D, bp @ name @ ''.part1''])"
proof -
  have key: "manifest_key D (bp @ name) = key"
    by (simp add: manifest_key_def Let_def assms(5,6))
  have 1: "mf key = None \<or> mf key = Some 0 \<longrightarrow>
            getReconstructedFileUrl D net json bp name =
              (Inr (Direct (bp @ name)), [manifestUrl_of D])"
    using assms(1-4) by (auto simp: getReconstructedFileUrl_def reconstruct_try_def Let_def key)
  have 2: "\<forall>n. mf key = Some n \<and> 0 < n \<longrightarrow>
            take 2 (snd (getReconstructedFileUrl D net json bp name)) =
              [manifestUrl_of D, bp @ name @ ''.part1'']"
  proof (intro allI impI)
    fix n assume n: "mf key = Some n \<and> 0 < n"
    then have "mf (manifest_key D (bp @ name)) = Some n" and "0 < n" by (simp_all add: key)
    with assms(1-4) have t: "reconstruct_try D net json bp name =
        merge_chunks net (bp @ name) n [manifestUrl_of D]"
      by (rule getReconstructedFileUrl_chunks)
    from n merge_chunks_first [of n net "bp @ name" "[manifestUrl_of D]"]
    obtain tl where "snd (merge_chunks net (bp @ name) n [manifestUrl_of D]) =
        [manifestUrl_of D] @ ((bp @ name) @ ''.part1'') # tl" by blast
    with t have "snd (getReconstructedFileUrl D net json bp name) =
        manifestUrl_of D # (bp @ name @ ''.part1'') # tl"
      by (cases "merge_chunks net (bp @ name) n [manifestUrl_of D]";
          cases "fst (merge_chunks net (bp @ name) n [manifestUrl_of D])")
         (auto simp: getReconstructedFileUrl_def)
    then show "take 2 (snd (getReconstructedFileUrl D net json bp name)) =
              [manifestUrl_of D, bp @ name @ ''.part1'']"
      by (simp add: numeral_2_eq_2)
  qed
  from 1 2 show ?thesis by blast
qed

section \<open>Chunk names\<close>


section \<open>The converter singleton\<close>

lemma getLibreOfficeConverter_instance:
  "getLibreOfficeConverter B arg s = (r, s1) \<Longrightarrow> converterInstance s1 = Some r"
  by (auto simp: getLibreOfficeConverter_def Let_def split: option.splits)

lemma getLibreOfficeConverter_again:
  "converterInstance s = Some r \<Longrightarrow> getLibreOfficeConverter B arg s = (r, s)"
  by (simp add: getLibreOfficeConverter_def)

lemma destroy_keeps:
  "converterInstance (destroy r s) = converterInstance s"
  "length (heap (destroy r s)) = length (heap s)"
  "basePath (heap (destroy r s) ! q) = basePath (heap s ! q)"
  by (auto simp: destroy_def nth_list_update)

lemma run_calls_singleton:
  "converterInstance s = Some r \<Longrightarrow> run_calls B calls s = (rs, s2) \<Longrightarrow>
     rs = replicate (length rs) r \<and> converterInstance s2 = Some r \<and>
     length (heap s2) = length (heap s) \<and> basePath (heap s2 ! r) = basePath (heap s ! r)"
proof (induction calls arbitrary: s rs s2)
  case Nil
  then show ?case by simp
next
  case (Cons c calls)
  show ?case
  proof (cases c)
    case (GetConverter arg)
    obtain rs' s' where r': "run_calls B calls s = (rs', s')" by (cases "run_calls B calls s")
    with Cons.prems GetConverter have "rs = r # rs'" "s2 = s'"
      by (simp_all add: getLibreOfficeConverter_again)
    with Cons.IH [OF Cons.prems(1) r'] show ?thesis by simp
  next
    case DestroyConverter
    with Cons.prems have r': "run_calls B calls (destroy r s) = (rs, s2)" by simp
    have "converterInstance (destroy r s) = Some r" using Cons.prems(1) by (simp add: destroy_keeps)
    from Cons.IH [OF this r'] show ?thesis by (simp add: destroy_keeps)
  qed
qed

text \<open>
  Claim C10. After a call of \<open>getLibreOfficeConverter\<close>, a call with any other
  argument returns the same reference and leaves the module state as it is. Over any
  sequence of later calls, with converters destroyed in between, every call returns that
  same reference and the base path of the instance stays what the first call made it:
  from the initial module state, the first argument if it is a non-empty string, the
  local default otherwise.
\<close>

theorem converter_is_singleton:
  "getLibreOfficeConverter B arg2 (snd (getLibreOfficeConverter B arg1 s)) =
     getLibreOfficeConverter B arg1 s \<and>
   (let (r, s1) = getLibreOfficeConverter B arg1 s;
        (rs, s2) = run_calls B calls s1
    in rs = replicate (length rs) r \<and> converterInstance s2 = Some r \<and>
       length (heap s2) = length (heap s1) \<and>
       basePath (heap s2 ! r) = basePath (heap s1 ! r)) \<and>
   basePath (heap (snd (getLibreOfficeConverter B arg1 initial_module))
               ! fst (getLibreOfficeConverter B arg1 initial_module)) =
     (case arg1 of
        None \<Rightarrow> LIBREOFFICE_LOCAL_PATH B
      | Some p \<Rightarrow> if p = [] then LIBREOFFICE_LOCAL_PATH B else p)"
proof (intro conjI)
  obtain r s1 where f: "getLibreOfficeConverter B arg1 s = (r, s1)"
    by (cases "getLibreOfficeConverter B arg1 s")
  then have i: "converterInstance s1 = Some r" by (rule getLibreOfficeConverter_instance)
  then show "getLibreOfficeConverter B arg2 (snd (getLibreOfficeConverter B arg1 s)) =
     getLibreOfficeConverter B arg1 s"
    by (simp add: f getLibreOfficeConverter_again)
  obtain rs s2 where c: "run_calls B calls s1 = (rs, s2)" by (cases "run_calls B calls s1")
  from run_calls_singleton [OF i c]
  show "let (r, s1) = getLibreOfficeConverter B arg1 s;
        (rs, s2) = run_calls B calls s1
    in rs = replicate (length rs) r \<and> converterInstance s2 = Some r \<and>
       length (heap s2) = length (heap s1) \<and>
       basePath (heap s2 ! r) = basePath (heap s1 ! r)"
    by (simp add: f c)
  show "basePath (heap (snd (getLibreOfficeConverter B arg1 initial_module))
               ! fst (getLibreOfficeConverter B arg1 initial_module)) =
     (case arg1 of
        None \<Rightarrow> LIBREOFFICE_LOCAL_PATH B
      | Some p \<Rightarrow> if p = [] then LIBREOFFICE_LOCAL_PATH B else p)"
    by (simp add: getLibreOfficeConverter_def initial_module_def Let_def new_LibreOfficeConverter_def)
qed

lemma example_singleton:
  "run_calls ''/'' [GetConverter (Some ''/a/''), GetConverter (Some ''/b/''), DestroyConverter,
       GetConverter None] initial_module =
     ([0, 0, 0], \<lparr>heap = [\<lparr>converter_set = False, initialized = False, initializing = False,
                          basePath = ''/a/''\<rparr>], converterInstance = Some 0\<rparr>)"
  by (simp add: getLibreOfficeConverter_def initial_module_def Let_def new_LibreOfficeConverter_def
      destroy_def)

section \<open>Worked resolutions\<close>

lemma example_manifestUrl: "manifestUrl_of ''/'' = ''/chunks-manifest.json''"
  by (simp add: manifestUrl_of_def)

lemma example_key:
  "manifest_key ''/'' ''/libreoffice-wasm/soffice.data.gz'' = ''libreoffice-wasm/soffice.data.gz''"
  by (simp add: manifest_key_def Let_def)

theorem fallback_on_manifest_failure_witness:
  "getReconstructedFileUrl ''/'' (\<lambda>_. None) (\<lambda>_. None) ''/libreoffice-wasm/'' ''soffice.wasm.gz'' =
     (Inr (Direct ''/libreoffice-wasm/soffice.wasm.gz''), [''/chunks-manifest.json'']) \<and>
   getReconstructedFileUrl ''/'' (\<lambda>_. Some (Response False None)) (\<lambda>_. None)
       ''/libreoffice-wasm/'' ''soffice.wasm.gz'' =
     (Inr (Direct ''/libreoffice-wasm/soffice.wasm.gz''), [''/chunks-manifest.json'']) \<and>
   getReconstructedFileUrl ''/'' (\<lambda>_. Some (Response True (Some [123]))) (\<lambda>_. None)
       ''/libreoffice-wasm/'' ''soffice.wasm.gz'' =
     (Inr (Direct ''/libreoffice-wasm/soffice.wasm.gz''), [''/chunks-manifest.json''])"
  using
    fallback_on_manifest_failure [of "''/''" "\<lambda>_. None" "\<lambda>_. None" "''/libreoffice-wasm/''" "''soffice.wasm.gz''"]
    fallback_on_manifest_failure [of "''/''" "\<lambda>_. Some (Response False None)" "\<lambda>_. None"
      "''/libreoffice-wasm/''" "''soffice.wasm.gz''"]
    fallback_on_manifest_failure [of "''/''" "\<lambda>_. Some (Response True (Some [123]))" "\<lambda>_. None"
      "''/libreoffice-wasm/''" "''soffice.wasm.gz''"]
  by (simp add: example_manifestUrl)

theorem fallback_on_chunk_failure_witness:
  "manifestUrl_of ''/'' = ''/chunks-manifest.json'' \<and>
   manifest_key ''/'' ''/libreoffice-wasm/soffice.data.gz'' = ''libreoffice-wasm/soffice.data.gz'' \<and>
   (1 :: nat) < 3 \<and>
   chunkUrl_of ''/libreoffice-wasm/soffice.data.gz'' 1 = ''/libreoffice-wasm/soffice.data.gz.part2'' \<and>
   fst (getReconstructedFileUrl ''/''
      (\<lambda>u. if u = ''/chunks-manifest.json'' then Some (Response True (Some []))
         else if u = ''/libreoffice-wasm/soffice.data.gz.part1'' then Some (Response True (Some [1]))
         else if u = ''/libreoffice-wasm/soffice.data.gz.part2'' then Some (Response False None)
         else Some (Response True (Some [3])))
      (\<lambda>_. Some [''libreoffice-wasm/soffice.data.gz'' \<mapsto> 3])
      ''/libreoffice-wasm/'' ''soffice.data.gz'') =
     Inr (Direct ''/libreoffice-wasm/soffice.data.gz'')"
proof -
  let ?net = "\<lambda>u. if u = ''/chunks-manifest.json'' then Some (Response True (Some []))
         else if u = ''/libreoffice-wasm/soffice.data.gz.part1'' then Some (Response True (Some [1]))
         else if u = ''/libreoffice-wasm/soffice.data.gz.part2'' then Some (Response False None)
         else Some (Response True (Some [3 :: byte]))"
  let ?json = "\<lambda>_ :: buffer. Some [''libreoffice-wasm/soffice.data.gz'' \<mapsto> 3 :: nat]"
  have h1: "?net (manifestUrl_of ''/'') = Some (Response True (Some []))"
    by (simp add: example_manifestUrl)
  have h2: "ok (Response True (Some ([] :: buffer)))" by simp
  have h3: "payload (Response True (Some ([] :: buffer))) = Some []" by simp
  have h4: "?json [] = Some [''libreoffice-wasm/soffice.data.gz'' \<mapsto> 3]" by simp
  have h5: "[''libreoffice-wasm/soffice.data.gz'' \<mapsto> 3 :: nat]
      (manifest_key ''/'' (''/libreoffice-wasm/'' @ ''soffice.data.gz'')) = Some 3"
    by (simp add: example_key)
  have h6: "(1 :: nat) < 3" by simp
  have u: "chunkUrl_of ''/libreoffice-wasm/soffice.data.gz'' 1 = ''/libreoffice-wasm/soffice.data.gz.part2''"
    by (simp add: chunkUrl_of_def string_of_nat.simps digit_def)
  have h7: "?net (chunkUrl_of (''/libreoffice-wasm/'' @ ''soffice.data.gz'') 1) = None \<or>
         (\<exists>cres. ?net (chunkUrl_of (''/libreoffice-wasm/'' @ ''soffice.data.gz'') 1) = Some cres \<and>
             (\<not> ok cres \<or> payload cres = None))"
    using u by simp
  have "fst (getReconstructedFileUrl ''/'' ?net ?json ''/libreoffice-wasm/'' ''soffice.data.gz'') =
     Inr (Direct (''/libreoffice-wasm/'' @ ''soffice.data.gz''))"
    by (rule fallback_on_chunk_failure [of ?net "''/''", OF h1 h2 h3 h4 h5 h6 h7])
  then have c: "fst (getReconstructedFileUrl ''/'' ?net ?json ''/libreoffice-wasm/'' ''soffice.data.gz'') =
     Inr (Direct ''/libreoffice-wasm/soffice.data.gz'')"
    by (simp only: append_Cons append_Nil)
  show ?thesis by (intro conjI) (rule example_manifestUrl example_key h6 u c)+
qed

theorem direct_url_when_not_split_witness:
  "manifestUrl_of ''/'' = ''/chunks-manifest.json'' \<and>
   ''libreoffice-wasm/soffice.wasm.gz'' =
     (if prefix ''/'' (''/libreoffice-wasm/'' @ ''soffice.wasm.gz'')
      then drop (length ''/'') (''/libreoffice-wasm/'' @ ''soffice.wasm.gz'')
      else ''/libreoffice-wasm/'' @ ''soffice.wasm.gz'') \<and>
   ''libreoffice-wasm/soffice.wasm.gz'' =
     (if prefix ''/'' ''libreoffice-wasm/soffice.wasm.gz''
      then drop 1 ''libreoffice-wasm/soffice.wasm.gz'' else ''libreoffice-wasm/soffice.wasm.gz'') \<and>
   getReconstructedFileUrl ''/'' (\<lambda>_. Some (Response True (Some [123, 125])))
      (\<lambda>_. Some Map.empty) ''/libreoffice-wasm/'' ''soffice.wasm.gz'' =
     (Inr (Direct ''/libreoffice-wasm/soffice.wasm.gz''), [''/chunks-manifest.json''])"
proof -
  let ?net = "\<lambda>_ :: string. Some (Response True (Some [123, 125 :: byte]))"
  let ?json = "\<lambda>_ :: buffer. Some (Map.empty :: chunk_manifest)"
  have h1: "?net (manifestUrl_of ''/'') = Some (Response True (Some [123, 125]))" by simp
  have h2: "ok (Response True (Some [123, 125 :: byte]))" by simp
  have h3: "payload (Response True (Some [123, 125 :: byte])) = Some [123, 125]" by simp
  have h4: "?json [123, 125] = Some Map.empty" by simp
  have h5: "''libreoffice-wasm/soffice.wasm.gz'' =
     (if prefix ''/'' (''/libreoffice-wasm/'' @ ''soffice.wasm.gz'')
      then drop (length ''/'') (''/libreoffice-wasm/'' @ ''soffice.wasm.gz'')
      else ''/libreoffice-wasm/'' @ ''soffice.wasm.gz'')" by simp
  have h6: "''libreoffice-wasm/soffice.wasm.gz'' =
     (if prefix ''/'' ''libreoffice-wasm/soffice.wasm.gz''
      then drop 1 ''libreoffice-wasm/soffice.wasm.gz'' else ''libreoffice-wasm/soffice.wasm.gz'')"
    by simp
  from direct_url_when_not_split [of ?net "''/''", OF h1 h2 h3 h4 h5 h6]
  have "getReconstructedFileUrl ''/'' ?net ?json ''/libreoffice-wasm/'' ''soffice.wasm.gz'' =
     (Inr (Direct (''/libreoffice-wasm/'' @ ''soffice.wasm.gz'')), [manifestUrl_of ''/''])"
    by simp
  then have c: "getReconstructedFileUrl ''/'' ?net ?json ''/libreoffice-wasm/'' ''soffice.wasm.gz'' =
     (Inr (Direct ''/libreoffice-wasm/soffice.wasm.gz''), [''/chunks-manifest.json''])"
    by (simp only: append_Cons append_Nil example_manifestUrl)
  show ?thesis by (intro conjI) (rule example_manifestUrl h5 h6 c)+
qed

end
